theory Spec2Isabelle
  imports Main "HOL-Library.AList" "HOL-Library.Sublist"
begin

section \<open>JavaScript values\<close>

text \<open>
  The options handed to \<^verbatim>\<open>module.exports = function(gulp, options)\<close> are a
  JSON-like tree. A property name of JavaScript is a string; the names that are canonical
  array indices (\<^verbatim>\<open>"0"\<close>, \<^verbatim>\<open>"1"\<close>, ...) are kept apart as \<open>Idx n\<close>, every
  other name is \<open>Name s\<close>. An array is an object like any other: its elements are the
  entries under the index keys, so \<^verbatim>\<open>["a", "b"]\<close> is
  \<open>JObject Array [(Idx 0, JStr ''a''), (Idx 1, JStr ''b'')]\<close>. Numbers are the integers.
\<close>

datatype key = Idx nat | Name string

datatype kind = Plain | Array

datatype jsval =
    JUndefined
  | JNull
  | JBool bool
  | JNum int
  | JStr string
  | JObject kind "(key \<times> jsval) list"

definition js_array :: "jsval list \<Rightarrow> jsval" where
  "js_array vs = JObject Array (map (\<lambda>(i, v). (Idx i, v)) (enumerate 0 vs))"

definition js_object :: "(string \<times> jsval) list \<Rightarrow> jsval" where
  "js_object ps = JObject Plain (map (\<lambda>(n, v). (Name n, v)) ps)"

definition js_strings :: "string list \<Rightarrow> jsval" where
  "js_strings ss = js_array (map JStr ss)"

text \<open>ToBoolean: what \<^verbatim>\<open>if (v)\<close> and \<^verbatim>\<open>v ? a : b\<close> test. Every object is
  truthy, the empty array included.\<close>

fun truthy :: "jsval \<Rightarrow> bool" where
  "truthy JUndefined = False"
| "truthy JNull = False"
| "truthy (JBool b) = b"
| "truthy (JNum n) = (n \<noteq> 0)"
| "truthy (JStr s) = (s \<noteq> [])"
| "truthy (JObject k ps) = True"

fun isObject :: "jsval \<Rightarrow> bool" where
  "isObject (JObject k ps) = True"
| "isObject v = False"

text \<open>Property access \<^verbatim>\<open>o[k]\<close> on own data properties: a missing property, and any
  property of a primitive, reads \<^verbatim>\<open>undefined\<close>. (Inherited members such as
  \<^verbatim>\<open>length\<close> or \<^verbatim>\<open>map\<close>, and the characters of a string primitive, are not
  data of the tree, and no key read below names one.)\<close>

fun get_prop :: "jsval \<Rightarrow> key \<Rightarrow> jsval" where
  "get_prop (JObject k ps) x = (case map_of ps x of Some v \<Rightarrow> v | None \<Rightarrow> JUndefined)"
| "get_prop v x = JUndefined"

text \<open>Assignment \<^verbatim>\<open>o[k] = v\<close>: an existing property keeps its place, a new one is
  added last.\<close>

fun set_prop :: "jsval \<Rightarrow> key \<Rightarrow> jsval \<Rightarrow> jsval" where
  "set_prop (JObject k ps) x v = JObject k (AList.update x v ps)"
| "set_prop w x v = w"

text \<open>The property key a string names: a canonical array index (decimal digits, no
  leading zero) is \<open>Idx\<close>, anything else \<open>Name\<close>.\<close>

definition is_digit :: "char \<Rightarrow> bool" where
  "is_digit c = (c \<in> set ''0123456789'')"

definition digit_val :: "char \<Rightarrow> nat" where
  "digit_val c = of_char c - 48"

definition prop_key :: "string \<Rightarrow> key" where
  "prop_key s =
     (if s \<noteq> [] \<and> list_all is_digit s \<and> (hd s \<noteq> CHR ''0'' \<or> s = ''0'')
      then Idx (foldl (\<lambda>n c. 10 * n + digit_val c) 0 s) else Name s)"

section \<open>The Node.js environment\<close>

text \<open>
  What the module reads from its process and from Node's library. \<^verbatim>\<open>path.join\<close>,
  \<^verbatim>\<open>path.relative\<close>, the exit status of a command run by
  \<^verbatim>\<open>child_process.execSync\<close> and the glob matching of the file watcher are not code of
  this repository: they are parameters. So is \<open>number_toString\<close>, the string JavaScript
  gives an integer of magnitude \<open>10\<^sup>2\<^sup>1\<close> or more, which is in exponent notation.
\<close>

datatype glob = GlobUndefined | GlobStr string | GlobList "string list"

record node =
  process_cwd :: string
  env_PORT :: "string option"
  path_join :: "string list \<Rightarrow> string"
  path_relative :: "string \<Rightarrow> string \<Rightarrow> string"
  exec_status :: "string \<Rightarrow> int"
  platform :: string
  glob_match :: "glob \<Rightarrow> string \<Rightarrow> bool"
  number_toString :: "int \<Rightarrow> string"

section \<open>The resolved options\<close>

text \<open>
  The shape of \<^verbatim>\<open>options\<close> after the defaults are filled in, as the task bodies
  read it. A field path \<^verbatim>\<open>options.client.scripts\<close> is the field \<open>client_scripts\<close>.
  \<open>None\<close> is a field that is \<^verbatim>\<open>undefined\<close> (the html scope has no \<^verbatim>\<open>cwd\<close>). \<^verbatim>\<open>exclude\<close> and \<^verbatim>\<open>only\<close> are
  arrays of task names and \<^verbatim>\<open>prefix\<close> is a string, as the README documents them.
  \<^verbatim>\<open>port\<close> is whatever primitive the caller or \<^verbatim>\<open>process.env.PORT\<close> gives, a
  number being an integer.
\<close>

datatype port_value =
    PortUndefined | PortNull | PortBool bool | PortString string | PortNumber int

record scope =
  cwd :: "string option"
  src :: "string list"
  lib :: "string list"

record options =
  root :: string
  port :: port_value
  server_cwd :: string
  server_main :: string
  server_watch :: "string list"
  client_lib :: string
  client_cwd :: string
  client_dest :: string
  client_html :: scope
  client_scripts :: scope
  client_styles :: scope
  client_styles_include :: scope
  client_templates :: scope
  client_images :: scope
  test_main :: string
  test_watch :: "string list"
  prefix :: "string option"
  exclude :: "string list option"
  only :: "string list option"
  warnExclusions :: bool

definition js_of_string :: "string option \<Rightarrow> jsval" where
  "js_of_string s = (case s of None \<Rightarrow> JUndefined | Some x \<Rightarrow> JStr x)"

definition js_of_names :: "string list option \<Rightarrow> jsval" where
  "js_of_names ns = (case ns of None \<Rightarrow> JUndefined | Some xs \<Rightarrow> js_strings xs)"

text \<open>String coercion \<^verbatim>\<open>'' + options.port\<close>. An integer of magnitude below
  \<open>10\<^sup>2\<^sup>1\<close> prints in decimal, with its sign when negative.\<close>

function decimal :: "nat \<Rightarrow> string" where
  "decimal n =
     (if n < 10 then [''0123456789'' ! n]
      else decimal (n div 10) @ [''0123456789'' ! (n mod 10)])"
  by pat_completeness auto
termination
  by (relation "measure id") auto

declare decimal.simps [simp del]

fun port_string :: "node \<Rightarrow> port_value \<Rightarrow> string" where
  "port_string nd PortUndefined = ''undefined''"
| "port_string nd PortNull = ''null''"
| "port_string nd (PortBool b) = (if b then ''true'' else ''false'')"
| "port_string nd (PortString s) = s"
| "port_string nd (PortNumber n) =
     (if \<bar>n\<bar> < 10 ^ 21 then (if n < 0 then ''-'' else []) @ decimal (nat \<bar>n\<bar>)
      else number_toString nd n)"

subsection \<open>Path resolver\<close>

text \<open>
  \<^verbatim>\<open>
  var buildFiles = function(scope, type) {
      var arr = [];
      if(type === 'lib') {
          arr.push(options.client.lib);
      } else {
          if(options.client.cwd) { arr.push(options.client.cwd); }
          if(scope.cwd) { arr.push(scope.cwd); }
      }
      return scope[type].map(file => path.join.apply(path, arr.concat([file])));
  };
  \<close>
\<close>

datatype file_type = SrcType | LibType

definition buildFiles :: "node \<Rightarrow> options \<Rightarrow> scope \<Rightarrow> file_type \<Rightarrow> string list" where
  "buildFiles nd opts sc ty =
     (let arr =
        (case ty of
           LibType \<Rightarrow> [client_lib opts]
         | SrcType \<Rightarrow>
             (if truthy (JStr (client_cwd opts)) then [client_cwd opts] else []) @
             (if truthy (js_of_string (cwd sc)) then [the (cwd sc)] else []))
      in map (\<lambda>file. path_join nd (arr @ [file])) (case ty of LibType \<Rightarrow> lib sc | SrcType \<Rightarrow> src sc))"

definition buildSrc :: "node \<Rightarrow> options \<Rightarrow> scope \<Rightarrow> string list" where
  "buildSrc nd opts sc = buildFiles nd opts sc SrcType"

definition buildLib :: "node \<Rightarrow> options \<Rightarrow> scope \<Rightarrow> string list" where
  "buildLib nd opts sc = buildFiles nd opts sc LibType"

text \<open>The object \<^verbatim>\<open>files\<close>, one definition per leaf. In the two include sets
  the prefix is \<^verbatim>\<open>options.client.cwd\<close> or \<^verbatim>\<open>options.client.lib\<close> alone.\<close>

definition files_src_html :: "node \<Rightarrow> options \<Rightarrow> string list" where
  "files_src_html nd opts = buildSrc nd opts (client_html opts)"

definition files_src_templates :: "node \<Rightarrow> options \<Rightarrow> string list" where
  "files_src_templates nd opts = buildSrc nd opts (client_templates opts)"

definition files_src_scripts :: "node \<Rightarrow> options \<Rightarrow> string list" where
  "files_src_scripts nd opts = buildSrc nd opts (client_scripts opts)"

definition files_src_styles_main :: "node \<Rightarrow> options \<Rightarrow> string list" where
  "files_src_styles_main nd opts = buildSrc nd opts (client_styles opts)"

definition files_src_styles_include :: "node \<Rightarrow> options \<Rightarrow> string list" where
  "files_src_styles_include nd opts =
     map (\<lambda>file. path_join nd [client_cwd opts, file]) (src (client_styles_include opts))"

definition files_src_images :: "node \<Rightarrow> options \<Rightarrow> string list" where
  "files_src_images nd opts = buildSrc nd opts (client_images opts)"

definition files_lib_scripts :: "node \<Rightarrow> options \<Rightarrow> string list" where
  "files_lib_scripts nd opts = buildLib nd opts (client_scripts opts)"

definition files_lib_styles_include :: "node \<Rightarrow> options \<Rightarrow> string list" where
  "files_lib_styles_include nd opts =
     map (\<lambda>file. path_join nd [client_lib opts, file]) (lib (client_styles_include opts))"

text \<open>\<^verbatim>\<open>var name = task => options.prefix ? `${options.prefix}_${task}` : task;\<close>\<close>

definition name :: "options \<Rightarrow> string \<Rightarrow> string" where
  "name opts t =
     (if truthy (js_of_string (prefix opts)) then the (prefix opts) @ ''_'' @ t else t)"

section \<open>Statements and their effects\<close>

text \<open>
  A task body and a watch callback are sequences of calls into gulp, its plugins and
  Node. Each call is a statement; running a sequence gives the calls that were made, in
  order, and how the sequence ended.
\<close>

datatype task_fn =
    HtmlFn | JshintFn | ScriptsFn | StylesFn | ImagesFn | ServerFn | DevFn | TestFn
  | AutotestFn | DocsFn | ChangelogFn
  | NoopFn
  | ExcludedFn string

datatype callback = GulpfileChanged | PackageJsonChanged | BowerJsonChanged | LivereloadInitiated

datatype watch_action =
    NoCallback
  | StartTasks "string list"
  | Reloadable string callback
  | OnChange callback

datatype plugin = Htmlmin bool

datatype log_arg = LogStr string | LogPort port_value

datatype close_handler = ExitWithCode | RespawnIfZero

datatype stmt =
    GulpWatch glob watch_action
  | GulpStart "string list"
  | GulpSrc "string list"
  | Pipe plugin
  | GulpDest string
  | DelSync "string list"
  | Log "log_arg list"
  | ConsoleWarn string
  | ExecSync string
  | Spawn string "string list" close_handler
  | ProcessExit "int option"
  | Nodemon string "string list"
  | LivereloadListen nat
  | LivereloadChanged "string list"
  | SetTimeout nat "stmt list"

datatype outcome = Completed | Thrown stmt | Exited "int option"

text \<open>
  Running a sequence: \<^verbatim>\<open>cp.execSync(cmd)\<close> throws when the command exits with a
  status other than 0, and nothing after it runs; \<^verbatim>\<open>process.exit(code)\<close> ends the
  process. Every other call returns.
\<close>

fun exec :: "node \<Rightarrow> stmt list \<Rightarrow> stmt list \<times> outcome" where
  "exec nd [] = ([], Completed)"
| "exec nd (ExecSync cmd # rest) =
     (if exec_status nd cmd \<noteq> 0 then ([ExecSync cmd], Thrown (ExecSync cmd))
      else (let (tr, out) = exec nd rest in (ExecSync cmd # tr, out)))"
| "exec nd (ProcessExit code # rest) = ([ProcessExit code], Exited code)"
| "exec nd (s # rest) = (let (tr, out) = exec nd rest in (s # tr, out))"

section \<open>The development server\<close>

text \<open>\<^verbatim>\<open>_.flatten([...])[name('styles')]\<close>: the flattened array of patterns, read at
  the property the task name names.\<close>

definition glob_of_js :: "jsval \<Rightarrow> glob" where
  "glob_of_js v = (case v of JStr s \<Rightarrow> GlobStr s | _ \<Rightarrow> GlobUndefined)"

definition styles_watch_glob :: "node \<Rightarrow> options \<Rightarrow> glob" where
  "styles_watch_glob nd opts =
     glob_of_js (get_prop
       (js_strings (concat [files_src_styles_main nd opts, files_src_styles_include nd opts,
                            files_lib_styles_include nd opts]))
       (prop_key (name opts ''styles'')))"

definition gulp_cmd :: "node \<Rightarrow> string" where
  "gulp_cmd nd = ''gulp'' @ (if platform nd = ''win32'' then ''.cmd'' else [])"

text \<open>The function \<^verbatim>\<open>server\<close>, statement by statement. The third
  \<^verbatim>\<open>gulp.watch\<close> is called with one argument, the indexed array.\<close>

definition server :: "node \<Rightarrow> options \<Rightarrow> stmt list" where
  "server nd opts =
     [ GulpWatch (GlobList (files_src_html nd opts)) (StartTasks [name opts ''html'']),
       GulpWatch (GlobList (concat [files_src_scripts nd opts, files_src_templates nd opts,
                                    files_lib_scripts nd opts]))
                 (StartTasks [name opts ''scripts'']),
       GulpWatch (styles_watch_glob nd opts) NoCallback,
       GulpWatch (GlobList (files_src_images nd opts)) (StartTasks [name opts ''images'']),
       GulpWatch (GlobStr ''gulpfile.js'') (Reloadable ''gulpfile.js'' GulpfileChanged),
       GulpWatch (GlobStr ''package.json'') (Reloadable ''package.json'' PackageJsonChanged),
       GulpWatch (GlobStr ''bower.json'') (Reloadable ''bower.json'' BowerJsonChanged),
       Nodemon (server_main opts) (server_watch opts),
       Log [LogStr ''app started on port'', LogPort (port opts)],
       LivereloadListen 35729,
       GulpWatch (GlobStr (path_join nd [client_dest opts, ''**/*''])) (OnChange LivereloadInitiated) ]"

text \<open>The bodies of the watch callbacks; \<open>p\<close> is \<^verbatim>\<open>event.path\<close>.\<close>

fun callback_body :: "node \<Rightarrow> options \<Rightarrow> callback \<Rightarrow> string \<Rightarrow> stmt list" where
  "callback_body nd opts GulpfileChanged p =
     [ Log [LogStr ''gulpfile.js changed, reloading server...''],
       ProcessExit (Some 0) ]"
| "callback_body nd opts PackageJsonChanged p =
     [ Log [LogStr ''package.json changed, installing packages...''],
       ExecSync ''npm install'',
       ExecSync ''npm prune'',
       ProcessExit (Some 0) ]"
| "callback_body nd opts BowerJsonChanged p =
     [ Log [LogStr ''bower.json changed, installing packages...''],
       ExecSync ''bower install'',
       Spawn (gulp_cmd nd) [name opts ''build''] ExitWithCode ]"
| "callback_body nd opts LivereloadInitiated p =
     [ Log [LogStr ''livereload initiated''],
       SetTimeout 1000 [LivereloadChanged [path_relative nd (port_string nd (port opts)) p]] ]"

text \<open>
  What a watch binding does when it fires for the path \<open>p\<close>.
  \<^verbatim>\<open>gulp.watch(glob, [tasks])\<close> starts the tasks;
  \<^verbatim>\<open>reloadable(file, cb)\<close> returns early when
  \<^verbatim>\<open>event.path.indexOf(file) === -1\<close>.
\<close>

fun fire :: "node \<Rightarrow> options \<Rightarrow> watch_action \<Rightarrow> string \<Rightarrow> stmt list \<times> outcome" where
  "fire nd opts NoCallback p = ([], Completed)"
| "fire nd opts (StartTasks ts) p = exec nd [GulpStart ts]"
| "fire nd opts (Reloadable file cb) p =
     (if \<not> sublist file p then ([], Completed) else exec nd (callback_body nd opts cb p))"
| "fire nd opts (OnChange cb) p = exec nd (callback_body nd opts cb p)"

text \<open>The watch bindings a body sets up, and the tasks a change of the path \<open>p\<close>
  starts while they are in place: every binding whose glob the watcher matches against
  \<open>p\<close> fires.\<close>

fun bindings :: "stmt list \<Rightarrow> (glob \<times> watch_action) list" where
  "bindings [] = []"
| "bindings (GulpWatch g a # rest) = (g, a) # bindings rest"
| "bindings (s # rest) = bindings rest"

fun started :: "stmt list \<Rightarrow> string list" where
  "started [] = []"
| "started (GulpStart ts # rest) = ts @ started rest"
| "started (s # rest) = started rest"

definition on_change :: "node \<Rightarrow> options \<Rightarrow> stmt list \<Rightarrow> string \<Rightarrow> stmt list" where
  "on_change nd opts body p =
     concat (map (\<lambda>(g, a). fst (fire nd opts a p))
                 (filter (\<lambda>(g, a). glob_match nd g p) (bindings body)))"

section \<open>The default tasks\<close>

text \<open>The body of \<^verbatim>\<open>html\<close> in \<^verbatim>\<open>gulp-begin.js\<close>, and the body of the earlier
  stand-alone gulpfile, which calls \<^verbatim>\<open>del.sync(files.src.html)\<close> first.\<close>

definition html :: "node \<Rightarrow> options \<Rightarrow> stmt list" where
  "html nd opts =
     [ GulpSrc (files_src_html nd opts), Pipe (Htmlmin True), GulpDest (client_dest opts) ]"

definition html_gulpfile :: "node \<Rightarrow> options \<Rightarrow> stmt list" where
  "html_gulpfile nd opts =
     [ DelSync (files_src_html nd opts),
       GulpSrc (files_src_html nd opts), Pipe (Htmlmin True), GulpDest (client_dest opts) ]"

definition autotest :: "options \<Rightarrow> stmt list" where
  "autotest opts =
     [ GulpWatch (GlobList (concat [server_watch opts, test_watch opts])) (StartTasks [''test'']) ]"

text \<open>The stub of an excluded task:
  \<^verbatim>\<open>() => { console.warn(`Task <${taskName}> has been explicity excluded!`); }\<close>\<close>

definition excluded_warning :: "string \<Rightarrow> stmt list" where
  "excluded_warning taskName =
     [ConsoleWarn (''Task <'' @ taskName @ ''> has been explicity excluded!'')]"

text \<open>
  The object \<^verbatim>\<open>defaultTasks\<close>: each key with its array of arguments, a list of
  dependency names or a body.
\<close>

datatype task_arg = Deps "string list" | Body task_fn

definition defaultTasks :: "options \<Rightarrow> (string \<times> task_arg list) list" where
  "defaultTasks opts =
     [ (name opts ''html'', [Body HtmlFn]),
       (name opts ''jshint'', [Body JshintFn]),
       (name opts ''scripts'', [Deps [name opts ''jshint''], Body ScriptsFn]),
       (name opts ''styles'', [Body StylesFn]),
       (name opts ''images'', [Body ImagesFn]),
       (name opts ''build'', [Deps [name opts ''html'', name opts ''styles'',
                                   name opts ''scripts'', name opts ''images'']]),
       (name opts ''server'', [Deps [name opts ''build''], Body ServerFn]),
       (name opts ''demon'', [Body ServerFn]),
       (name opts ''dev'', [Body DevFn]),
       (name opts ''test'', [Deps [name opts ''jshint''], Body TestFn]),
       (name opts ''autotest'', [Body AutotestFn]),
       (name opts ''docs'', [Body DocsFn]),
       (name opts ''changelog'', [Body ChangelogFn]) ]"

section \<open>Exclusion and registration\<close>

text \<open>
  \<^verbatim>\<open>
  if (options.exclude) {
    excludedTasks = options.exclude;
  } else if (options.only) {
    var allDefaultTaskNames   = _.keys(defaultTasks);
    var onlyDefaultTaskNames  = _.map(options.only, name);
    excludedTasks = _.difference(allDefaultTaskNames, onlyDefaultTaskNames);
  } else {
    excludedTasks = [];
  }
  \<close>
\<close>

definition difference :: "'a list \<Rightarrow> 'a list \<Rightarrow> 'a list" where
  "difference xs ys = filter (\<lambda>x. x \<notin> set ys) xs"

definition excludedTasks :: "options \<Rightarrow> string list" where
  "excludedTasks opts =
     (if truthy (js_of_names (exclude opts)) then the (exclude opts)
      else if truthy (js_of_names (only opts)) then
        (let allDefaultTaskNames = map fst (defaultTasks opts);
             onlyDefaultTaskNames = map (name opts) (the (only opts))
         in difference allDefaultTaskNames onlyDefaultTaskNames)
      else [])"

text \<open>
  The task table of gulp: \<^verbatim>\<open>gulp.task(name, dep, fn)\<close> stores the dependency list
  and the body under the name; called with a body alone it stores no dependency, called
  with a dependency list alone it stores a body that does nothing.
\<close>

record registered =
  dep :: "string list"
  fn :: task_fn

type_synonym gulp = "string \<rightharpoonup> registered"

fun gulp_task :: "string \<Rightarrow> task_arg option \<Rightarrow> gulp \<Rightarrow> gulp" where
  "gulp_task n (Some (Body f)) g = g(n \<mapsto> \<lparr>dep = [], fn = f\<rparr>)"
| "gulp_task n (Some (Deps ds)) g = g(n \<mapsto> \<lparr>dep = ds, fn = NoopFn\<rparr>)"
| "gulp_task n None g = g(n \<mapsto> \<lparr>dep = [], fn = NoopFn\<rparr>)"

text \<open>
  \<^verbatim>\<open>
  var task = (taskName, callback) => {
    var isExcluded = _.includes(excludedTasks, taskName)
      || _.includes(excludedTasks, name(taskName));
    if (isExcluded) {
      if (options.warnExclusions) {
        gulp.task(taskName, () => { console.warn(...); });
      }
    } else {
      gulp.task(taskName, callback);
    }
  };
  \<close>
\<close>

definition isExcluded :: "options \<Rightarrow> string \<Rightarrow> bool" where
  "isExcluded opts taskName =
     (taskName \<in> set (excludedTasks opts) \<or> name opts taskName \<in> set (excludedTasks opts))"

definition task :: "options \<Rightarrow> string \<Rightarrow> task_arg option \<Rightarrow> gulp \<Rightarrow> gulp" where
  "task opts taskName callback g =
     (if isExcluded opts taskName then
        (if warnExclusions opts then gulp_task taskName (Some (Body (ExcludedFn taskName))) g
         else g)
      else gulp_task taskName callback g)"

text \<open>
  \<^verbatim>\<open>
  _.forEach(defaultTasks, (defaultTaskArgs, defaultTaskName) => {
    var argArr = [defaultTaskName].concat(defaultTaskArgs);
    task.apply(null, argArr);
  });
  \<close>
  \<^verbatim>\<open>task\<close> has the two parameters \<^verbatim>\<open>taskName\<close> and \<^verbatim>\<open>callback\<close>: of the
  arguments of a descriptor it receives the first.
\<close>

definition first_arg :: "task_arg list \<Rightarrow> task_arg option" where
  "first_arg args = (case args of [] \<Rightarrow> None | a # _ \<Rightarrow> Some a)"

definition register :: "options \<Rightarrow> gulp \<Rightarrow> gulp" where
  "register opts g =
     fold (\<lambda>(defaultTaskName, defaultTaskArgs). task opts defaultTaskName (first_arg defaultTaskArgs))
          (defaultTasks opts) g"

text \<open>What a registered body does when the scheduler invokes it, for the bodies the
  properties below are about.\<close>

fun body_stmts :: "node \<Rightarrow> options \<Rightarrow> task_fn \<Rightarrow> stmt list option" where
  "body_stmts nd opts HtmlFn = Some (html nd opts)"
| "body_stmts nd opts ServerFn = Some (server nd opts)"
| "body_stmts nd opts AutotestFn = Some (autotest opts)"
| "body_stmts nd opts NoopFn = Some []"
| "body_stmts nd opts (ExcludedFn taskName) = Some (excluded_warning taskName)"
| "body_stmts nd opts f = None"

text \<open>The calls of a trace that delete files, and the ports a trace listens on.\<close>

fun deleted :: "stmt list \<Rightarrow> string list" where
  "deleted [] = []"
| "deleted (DelSync gs # rest) = gs @ deleted rest"
| "deleted (s # rest) = deleted rest"


section \<open>The defaults, and a concrete environment\<close>

text \<open>The options when the caller supplies none: the literal passed to
  \<^verbatim>\<open>_.defaultsDeep\<close>, with \<^verbatim>\<open>root: process.cwd()\<close> and
  \<^verbatim>\<open>port: process.env.PORT\<close>.\<close>

definition default_options :: "node \<Rightarrow> options" where
  "default_options nd =
     \<lparr> root = process_cwd nd,
       port = (case env_PORT nd of None \<Rightarrow> PortUndefined | Some s \<Rightarrow> PortString s),
       server_cwd = ''src/server'',
       server_main = ''index.js'',
       server_watch = [path_join nd [''src/server'', ''**/*.js''], ''*.js''],
       client_lib = ''bower_components'',
       client_cwd = ''src/client'',
       client_dest = ''public'',
       client_html = \<lparr>cwd = None, src = [''*.html''], lib = []\<rparr>,
       client_scripts = \<lparr>cwd = Some ''scripts'', src = [''*.js'', ''*/**/*.js''], lib = []\<rparr>,
       client_styles = \<lparr>cwd = Some ''styles'', src = [''styles.scss''], lib = []\<rparr>,
       client_styles_include = \<lparr>cwd = None, src = [''styles''], lib = []\<rparr>,
       client_templates = \<lparr>cwd = Some ''views'', src = [''**/*.html''], lib = []\<rparr>,
       client_images = \<lparr>cwd = Some ''images'', src = [''**/*.png''], lib = []\<rparr>,
       test_main = ''spec.js'',
       test_watch = [''test/**/*.js''],
       prefix = None,
       exclude = None,
       only = None,
       warnExclusions = False \<rparr>"

text \<open>An environment to evaluate the definitions in: paths are joined with a slash,
  every command succeeds, the watcher matches a pattern that is the end of the path, and
  the one integer printed beyond the decimal range is \<open>10\<^sup>2\<^sup>1\<close>.\<close>

fun join_slash :: "string list \<Rightarrow> string" where
  "join_slash [] = []"
| "join_slash [x] = x"
| "join_slash (x # xs) = x @ ''/'' @ join_slash xs"

fun match_suffix :: "glob \<Rightarrow> string \<Rightarrow> bool" where
  "match_suffix GlobUndefined p = False"
| "match_suffix (GlobStr g) p = suffix g p"
| "match_suffix (GlobList gs) p = list_ex (\<lambda>g. suffix g p) gs"

definition example_node :: node where
  "example_node =
     \<lparr> process_cwd = ''/project'',
       env_PORT = Some ''8081'',
       path_join = join_slash,
       path_relative = (\<lambda>from to. ''../'' @ to),
       exec_status = (\<lambda>cmd. 0),
       platform = ''linux'',
       glob_match = match_suffix,
       number_toString = (\<lambda>n. ''1e+21'') \<rparr>"

section \<open>Configuration resolution\<close>

text \<open>
  \<^verbatim>\<open>options = _.defaultsDeep(options, { root: process.cwd(), ... });\<close>

  \<^verbatim>\<open>_.defaultsDeep\<close> is lodash's (lodash 4). It runs \<^verbatim>\<open>mergeWith\<close> with the
  customizer
  \<^verbatim>\<open>
  function customDefaultsMerge(objValue, srcValue, key, object, source, stack) {
    if (isObject(objValue) && isObject(srcValue)) {
      // Recursively merge objects and arrays (susceptible to call stack limits).
      baseMerge(objValue, srcValue, undefined, customDefaultsMerge, stack);
    }
    return objValue;
  }
  \<close>
  so for each property of the source, in order: a destination value that is not
  \<^verbatim>\<open>undefined\<close> stays, and when both values are objects (arrays are objects) the
  source's properties are merged into the destination value in turn; a destination value
  that is \<^verbatim>\<open>undefined\<close> becomes the source value, an object or array being rebuilt
  from an empty one of its kind.
\<close>

fun merge_value :: "jsval \<Rightarrow> jsval \<Rightarrow> jsval"
  and merge_entries :: "jsval \<Rightarrow> (key \<times> jsval) list \<Rightarrow> jsval" where
  "merge_value objValue (JObject k ps) =
     (if isObject objValue then merge_entries objValue ps
      else if objValue = JUndefined then merge_entries (JObject k []) ps
      else objValue)"
| "merge_value objValue JUndefined = objValue"
| "merge_value objValue JNull = (if objValue = JUndefined then JNull else objValue)"
| "merge_value objValue (JBool b) = (if objValue = JUndefined then JBool b else objValue)"
| "merge_value objValue (JNum n) = (if objValue = JUndefined then JNum n else objValue)"
| "merge_value objValue (JStr s) = (if objValue = JUndefined then JStr s else objValue)"
| "merge_entries object [] = object"
| "merge_entries object ((x, srcValue) # rest) =
     merge_entries (set_prop object x (merge_value (get_prop object x) srcValue)) rest"

text \<open>
  The destination is \<^verbatim>\<open>Object(object)\<close>: the caller's object itself when it is one,
  a fresh empty object for \<^verbatim>\<open>undefined\<close> and \<^verbatim>\<open>null\<close>, and the wrapper of a
  primitive, which has no property of its own but for a string, whose characters are its
  index properties.
\<close>

fun to_object :: "jsval \<Rightarrow> jsval" where
  "to_object (JObject k ps) = JObject k ps"
| "to_object (JStr s) = JObject Plain (map (\<lambda>(i, c). (Idx i, JStr [c])) (enumerate 0 s))"
| "to_object v = JObject Plain []"

fun defaultsDeep :: "jsval \<Rightarrow> jsval \<Rightarrow> jsval" where
  "defaultsDeep object (JObject k ps) = merge_entries (to_object object) ps"
| "defaultsDeep object source = to_object object"

text \<open>
  \<^verbatim>\<open>_.get(options, 'server.cwd', 'src/server')\<close>: the property named
  \<^verbatim>\<open>server.cwd\<close> when the object has one, else the path \<^verbatim>\<open>server\<close>,
  \<^verbatim>\<open>cwd\<close>; the default stands in for \<^verbatim>\<open>undefined\<close>.
\<close>

definition has_own :: "jsval \<Rightarrow> key \<Rightarrow> bool" where
  "has_own v x = (case v of JObject k ps \<Rightarrow> x \<in> fst ` set ps | _ \<Rightarrow> False)"

definition get_server_cwd :: "jsval \<Rightarrow> jsval" where
  "get_server_cwd options =
     (let result =
        (if has_own (to_object options) (Name ''server.cwd'')
         then get_prop options (Name ''server.cwd'')
         else get_prop (get_prop options (Name ''server'')) (Name ''cwd''))
      in if result = JUndefined then JStr ''src/server'' else result)"

text \<open>
  The object literal of the defaults. Its first \<^verbatim>\<open>server.watch\<close> pattern is
  \<^verbatim>\<open>path.join(_.get(options, 'server.cwd', 'src/server'), '**/*.js')\<close>, and
  \<^verbatim>\<open>path.join\<close> throws a TypeError for an argument that is not a string.
\<close>

datatype js_error = TypeError

definition defaults_literal :: "node \<Rightarrow> string \<Rightarrow> jsval" where
  "defaults_literal nd server_glob =
        js_object
          [ (''root'', JStr (process_cwd nd)),
            (''port'', js_of_string (env_PORT nd)),
            (''server'', js_object
               [ (''cwd'', JStr ''src/server''),
                 (''main'', JStr ''index.js''),
                 (''watch'', js_strings [server_glob, ''*.js'']) ]),
            (''client'', js_object
               [ (''lib'', JStr ''bower_components''),
                 (''cwd'', JStr ''src/client''),
                 (''dest'', JStr ''public''),
                 (''html'', js_object [(''src'', js_strings [''*.html''])]),
                 (''scripts'', js_object
                    [ (''cwd'', JStr ''scripts''),
                      (''dest'', JStr ''app.min.js''),
                      (''lib'', js_strings []),
                      (''src'', js_strings [''*.js'', ''*/**/*.js'']) ]),
                 (''styles'', js_object
                    [ (''cwd'', JStr ''styles''),
                      (''dest'', JStr ''app.min.css''),
                      (''include'', js_object
                         [(''lib'', js_strings []), (''src'', js_strings [''styles''])]),
                      (''src'', js_strings [''styles.scss'']) ]),
                 (''templates'', js_object
                    [(''cwd'', JStr ''views''), (''src'', js_strings [''**/*.html''])]),
                 (''images'', js_object
                    [(''cwd'', JStr ''images''), (''src'', js_strings [''**/*.png''])]) ]),
            (''test'', js_object
               [(''main'', JStr ''spec.js''), (''watch'', js_strings [''test/**/*.js''])]) ]"

definition defaults :: "node \<Rightarrow> jsval \<Rightarrow> js_error + jsval" where
  "defaults nd options =
     (case get_server_cwd options of
        JStr c \<Rightarrow> Inr (defaults_literal nd (path_join nd [c, ''**/*.js'']))
      | _ \<Rightarrow> Inl TypeError)"

text \<open>
  The value \<^verbatim>\<open>options\<close> holds after the assignment, or the error thrown while the
  defaults were built.
\<close>

definition resolve :: "node \<Rightarrow> jsval \<Rightarrow> js_error + jsval" where
  "resolve nd userOptions =
     (case defaults nd userOptions of
        Inl e \<Rightarrow> Inl e
      | Inr d \<Rightarrow> Inr (defaultsDeep userOptions d))"

text \<open>Reading a path of property keys; a path of the defaults; a path that a value
  leaves unset: the path ends at \<^verbatim>\<open>undefined\<close>, at its end or before it, and every
  value on it before that is an object. (A path that runs into \<^verbatim>\<open>null\<close> or into a
  primitive before its end is not unset: that value is set, and it is not an object.)\<close>

fun get_path :: "jsval \<Rightarrow> key list \<Rightarrow> jsval" where
  "get_path v [] = v"
| "get_path v (x # p) = get_path (get_prop v x) p"


fun unset :: "jsval \<Rightarrow> key list \<Rightarrow> bool" where
  "unset v [] = (v = JUndefined)"
| "unset v (x # p) = (v = JUndefined \<or> (isObject v \<and> unset (get_prop v x) p))"



text \<open>A value in which no object has a key twice, as every object literal is.\<close>

fun distinct_keys :: "jsval \<Rightarrow> bool" where
  "distinct_keys (JObject k ps) =
     (distinct (map fst ps) \<and> list_all (\<lambda>p. distinct_keys (snd p)) ps)"
| "distinct_keys v = True"


section \<open>Resolution on the caller's object\<close>

text \<open>
  The values above are trees. What the caller hands over is a reference to an object of
  the running program, and \<^verbatim>\<open>_.defaultsDeep\<close> assigns through it (lodash: "this
  method mutates object"). The store is the list of the objects allocated so far, each
  with its kind and its properties; an address is an index into the list, and a new
  object is appended. A value is a primitive or a reference to an object of the store.
\<close>

datatype hval = HUndefined | HNull | HBool bool | HNum int | HStr string | HRef nat

type_synonym store = "(kind \<times> (key \<times> hval) list) list"












text \<open>
  A value of the store represents a tree when, read through the store, it is that tree
  (\<open>matches\<close>), and the objects read on the way (\<open>addrs\<close>, in the order they are met)
  are all different: no object is shared between two places of the tree.
\<close>

fun matches :: "store \<Rightarrow> hval \<Rightarrow> jsval \<Rightarrow> bool"
  and matches_entries :: "store \<Rightarrow> (key \<times> hval) list \<Rightarrow> (key \<times> jsval) list \<Rightarrow> bool" where
  "matches h v JUndefined = (v = HUndefined)"
| "matches h v JNull = (v = HNull)"
| "matches h v (JBool b) = (v = HBool b)"
| "matches h v (JNum n) = (v = HNum n)"
| "matches h v (JStr s) = (v = HStr s)"
| "matches h v (JObject k ps) =
     (case v of
        HRef a \<Rightarrow> a < length h \<and> fst (h ! a) = k \<and> matches_entries h (snd (h ! a)) ps
      | _ \<Rightarrow> False)"
| "matches_entries h es [] = (es = [])"
| "matches_entries h es ((x, t) # ps) =
     (case es of
        [] \<Rightarrow> False
      | e # es' \<Rightarrow> fst e = x \<and> matches h (snd e) t \<and> matches_entries h es' ps)"





section \<open>Properties of exclusion and registration\<close>

lemma truthy_js_of_names [simp]: "truthy (js_of_names ns) = (ns \<noteq> None)"
  by (cases ns) (simp_all add: js_of_names_def js_strings_def js_array_def)

lemma truthy_js_of_string [simp]: "truthy (js_of_string s) = (\<exists>x. s = Some x \<and> x \<noteq> [])"
  by (cases s) (simp_all add: js_of_string_def)

lemma name_inj [simp]: "(name opts a = name opts b) = (a = b)"
  by (auto simp: name_def)

lemma distinct_defaultTasks: "distinct (map fst (defaultTasks opts))"
  by (simp add: defaultTasks_def)

text \<open>
  \<^bold>\<open>C1.\<close> The exclusion set is the exclude list when \<^verbatim>\<open>exclude\<close> is given, whatever
  \<^verbatim>\<open>only\<close> holds; without \<^verbatim>\<open>exclude\<close> and with \<^verbatim>\<open>only\<close> it is the default
  task names minus the prefixed names of \<^verbatim>\<open>only\<close>; without both it is empty. An
  empty \<^verbatim>\<open>exclude\<close> array is a given one: the exclusion set is then empty even when
  \<^verbatim>\<open>only\<close> is supplied.
\<close>

theorem excludedTasks_precedence:
  "(exclude opts = Some ex \<longrightarrow> excludedTasks opts = ex) \<and>
   (exclude opts = None \<and> only opts = Some on \<longrightarrow>
      excludedTasks opts = filter (\<lambda>n. n \<notin> name opts ` set on) (map fst (defaultTasks opts)) \<and>
      set (excludedTasks opts) = fst ` set (defaultTasks opts) - name opts ` set on) \<and>
   (exclude opts = None \<and> only opts = None \<longrightarrow> excludedTasks opts = []) \<and>
   excludedTasks (opts\<lparr>exclude := Some [], only := Some on\<rparr>) = []"
  by (auto simp: excludedTasks_def difference_def)

theorem excludedTasks_precedence_witness:
  "excludedTasks ((default_options example_node)\<lparr>exclude := Some [''server''], only := Some [''html'']\<rparr>)
     = [''server''] \<and>
   excludedTasks ((default_options example_node)\<lparr>prefix := Some ''p'', only := Some [''html'', ''build'']\<rparr>)
     = [''p_jshint'', ''p_scripts'', ''p_styles'', ''p_images'', ''p_server'', ''p_demon'',
        ''p_dev'', ''p_test'', ''p_autotest'', ''p_docs'', ''p_changelog''] \<and>
   excludedTasks (default_options example_node) = []"
proof -
  let ?a = "(default_options example_node)\<lparr>exclude := Some [''server''], only := Some [''html'']\<rparr>"
  let ?b = "(default_options example_node)\<lparr>prefix := Some ''p'', only := Some [''html'', ''build'']\<rparr>"
  let ?c = "default_options example_node"
  have a: "exclude ?a = Some [''server'']" by simp
  have b: "exclude ?b = None \<and> only ?b = Some [''html'', ''build'']"
    by (simp add: default_options_def)
  have c: "exclude ?c = None \<and> only ?c = None"
    by (simp add: default_options_def)
  have "excludedTasks ?a = [''server'']"
    using excludedTasks_precedence[of ?a "[''server'']"] a by blast
  moreover have "excludedTasks ?b =
      filter (\<lambda>n. n \<notin> name ?b ` set [''html'', ''build'']) (map fst (defaultTasks ?b))"
    using excludedTasks_precedence[of ?b _ "[''html'', ''build'']"] b by blast
  moreover have "excludedTasks ?c = []"
    using excludedTasks_precedence[of ?c] c by blast
  ultimately show ?thesis
    by (simp add: defaultTasks_def name_def js_of_string_def)
qed

lemma task_other: "m \<noteq> n \<Longrightarrow> task opts n cb g m = g m"
  by (cases "(n, cb, g)" rule: gulp_task.cases) (auto simp: task_def)

lemma task_same:
  "task opts n cb g n =
     (if isExcluded opts n
      then (if warnExclusions opts then Some \<lparr>dep = [], fn = ExcludedFn n\<rparr> else g n)
      else gulp_task n cb g n)"
  by (simp add: task_def)

lemma gulp_task_same: "gulp_task n cb g n = gulp_task n cb g' n"
  by (cases "(n, cb, g)" rule: gulp_task.cases) auto

lemma gulp_task_defined: "\<exists>y. gulp_task n cb g n = Some y"
  by (cases "(n, cb, g)" rule: gulp_task.cases) auto

lemma fold_task_other:
  "n \<notin> fst ` set ds \<Longrightarrow>
   fold (\<lambda>(k, args). task opts k (first_arg args)) ds g n = g n"
  by (induction ds arbitrary: g) (auto simp: task_other)

lemma fold_task_at:
  "distinct (map fst ds) \<Longrightarrow> (n, args) \<in> set ds \<Longrightarrow>
   fold (\<lambda>(k, args). task opts k (first_arg args)) ds g n =
     (if isExcluded opts n
      then (if warnExclusions opts then Some \<lparr>dep = [], fn = ExcludedFn n\<rparr> else g n)
      else gulp_task n (first_arg args) g n)"
proof (induction ds arbitrary: g)
  case Nil
  then show ?case by simp
next
  case (Cons d ds)
  obtain k a where d: "d = (k, a)" by (cases d)
  show ?case
  proof (cases "k = n")
    case True
    with Cons.prems d have "n \<notin> fst ` set ds" and "a = args" by (auto simp: rev_image_eqI)
    then show ?thesis
      using True d by (simp add: fold_task_other task_same)
  next
    case False
    with Cons.prems d have "(n, args) \<in> set ds" "distinct (map fst ds)" by auto
    then show ?thesis
      using Cons.IH[of "task opts k (first_arg a) g"] False d
      by (simp add: task_other gulp_task_same[of n _ "task opts k (first_arg a) g" g])
  qed
qed

lemma register_at:
  "(n, args) \<in> set (defaultTasks opts) \<Longrightarrow>
   register opts g n =
     (if isExcluded opts n
      then (if warnExclusions opts then Some \<lparr>dep = [], fn = ExcludedFn n\<rparr> else g n)
      else gulp_task n (first_arg args) g n)"
  unfolding register_def by (rule fold_task_at[OF distinct_defaultTasks])

lemma register_other:
  "n \<notin> fst ` set (defaultTasks opts) \<Longrightarrow> register opts g n = g n"
  unfolding register_def by (rule fold_task_other)

lemma register_defined:
  assumes "warnExclusions opts \<or> (\<forall>n \<in> fst ` set (defaultTasks opts). \<not> isExcluded opts n)"
      and "n \<in> fst ` set (defaultTasks opts)"
  shows "register opts g n \<noteq> None"
proof -
  from assms(2) obtain args where a: "(n, args) \<in> set (defaultTasks opts)" by auto
  show ?thesis
    using assms gulp_task_defined[of n "first_arg args" g] by (auto simp: register_at[OF a])
qed

lemma deps_are_default_tasks:
  "(n, args) \<in> set (defaultTasks opts) \<Longrightarrow> gulp_task n (first_arg args) g n = Some r \<Longrightarrow>
   set (dep r) \<subseteq> fst ` set (defaultTasks opts)"
  by (auto simp: defaultTasks_def first_arg_def)

text \<open>
  \<^bold>\<open>C2\<close> (as amended). For a task descriptor whose registered name is in the exclusion
  set: when \<^verbatim>\<open>warnExclusions\<close> is truthy, registration installs under that name a task
  without dependencies whose body is the stub, and the stub, whenever it is invoked, makes
  one call, the warning that names the task, and returns; when \<^verbatim>\<open>warnExclusions\<close> is
  falsy, registration installs nothing under that name.
\<close>

theorem excluded_task_registration:
  assumes "(taskName, args) \<in> set (defaultTasks opts)"
      and "taskName \<in> set (excludedTasks opts)"
  shows "(warnExclusions opts \<longrightarrow>
            register opts g taskName = Some \<lparr>dep = [], fn = ExcludedFn taskName\<rparr> \<and>
            body_stmts nd opts (ExcludedFn taskName) = Some (excluded_warning taskName) \<and>
            exec nd (excluded_warning taskName) =
              ([ConsoleWarn (''Task <'' @ taskName @ ''> has been explicity excluded!'')], Completed)) \<and>
         (\<not> warnExclusions opts \<longrightarrow> register opts g taskName = g taskName)"
proof -
  have "isExcluded opts taskName"
    using assms(2) by (simp add: isExcluded_def)
  then show ?thesis
    by (simp add: register_at[OF assms(1)] excluded_warning_def)
qed

theorem excluded_task_registration_witness:
  "register ((default_options example_node)\<lparr>exclude := Some [''server''], warnExclusions := True\<rparr>)
     Map.empty ''server'' = Some \<lparr>dep = [], fn = ExcludedFn ''server''\<rparr> \<and>
   exec example_node (excluded_warning ''server'') =
     ([ConsoleWarn ''Task <server> has been explicity excluded!''], Completed) \<and>
   register ((default_options example_node)\<lparr>exclude := Some [''server''], warnExclusions := False\<rparr>)
     (Map.empty(''server'' \<mapsto> \<lparr>dep = [], fn = NoopFn\<rparr>)) ''server''
     = Some \<lparr>dep = [], fn = NoopFn\<rparr>"
proof -
  let ?a = "(default_options example_node)\<lparr>exclude := Some [''server''], warnExclusions := True\<rparr>"
  let ?b = "(default_options example_node)\<lparr>exclude := Some [''server''], warnExclusions := False\<rparr>"
  let ?args = "[Deps [''build''], Body ServerFn]"
  have a: "(''server'', ?args) \<in> set (defaultTasks ?a)" "''server'' \<in> set (excludedTasks ?a)"
    by (simp_all add: defaultTasks_def name_def default_options_def excludedTasks_def)
  have b: "(''server'', ?args) \<in> set (defaultTasks ?b)" "''server'' \<in> set (excludedTasks ?b)"
    by (simp_all add: defaultTasks_def name_def default_options_def excludedTasks_def)
  show ?thesis
    using excluded_task_registration[OF a, of Map.empty example_node]
          excluded_task_registration[OF b, of "Map.empty(''server'' \<mapsto> \<lparr>dep = [], fn = NoopFn\<rparr>)"]
    by simp
qed

theorem excluded_task_unregistered_counterexample:
  "(''server'', [Deps [''build''], Body ServerFn])
     \<in> set (defaultTasks ((default_options example_node)\<lparr>exclude := Some [''server'']\<rparr>)) \<and>
   isExcluded ((default_options example_node)\<lparr>exclude := Some [''server'']\<rparr>) ''server'' \<and>
   register ((default_options example_node)\<lparr>exclude := Some [''server'']\<rparr>) Map.empty ''server'' = None \<and>
   register ((default_options example_node)\<lparr>exclude := Some [''server'']\<rparr>) Map.empty ''demon''
     = Some \<lparr>dep = [], fn = ServerFn\<rparr>"
proof -
  let ?o = "(default_options example_node)\<lparr>exclude := Some [''server'']\<rparr>"
  have s: "(''server'', [Deps [''build''], Body ServerFn]) \<in> set (defaultTasks ?o)"
   and d: "(''demon'', [Body ServerFn]) \<in> set (defaultTasks ?o)"
    by (simp_all add: defaultTasks_def name_def default_options_def)
  have e: "excludedTasks ?o = [''server'']" "\<not> warnExclusions ?o" "name ?o = (\<lambda>t. t)"
    by (simp_all add: excludedTasks_def default_options_def name_def fun_eq_iff)
  show ?thesis
    using s by (simp add: register_at[OF s] register_at[OF d] isExcluded_def e first_arg_def)
qed

section \<open>Properties of the development server and of the task bodies\<close>

lemma started_exec: "set (started (fst (exec nd ss))) \<subseteq> set (started ss)"
  by (induction nd ss rule: exec.induct) (auto split: prod.splits)

lemma started_callback [simp]: "started (callback_body nd opts cb p) = []"
  by (cases cb) simp_all

lemma started_fire:
  "set (started (fst (fire nd opts a p))) \<subseteq> (case a of StartTasks ts \<Rightarrow> set ts | _ \<Rightarrow> {})"
proof (cases a)
  case (Reloadable f cb)
  then show ?thesis using started_exec[of nd "callback_body nd opts cb p"] by simp
next
  case (OnChange cb)
  then show ?thesis using started_exec[of nd "callback_body nd opts cb p"] by simp
qed simp_all

lemma started_append [simp]: "started (xs @ ys) = started xs @ started ys"
  by (induction xs rule: started.induct) simp_all

lemma started_concat: "set (started (concat xss)) = (\<Union>xs\<in>set xss. set (started xs))"
  by (induction xss) simp_all

lemma server_actions:
  "map snd (bindings (server nd opts)) =
        [StartTasks [name opts ''html''], StartTasks [name opts ''scripts''], NoCallback,
         StartTasks [name opts ''images''], Reloadable ''gulpfile.js'' GulpfileChanged,
         Reloadable ''package.json'' PackageJsonChanged, Reloadable ''bower.json'' BowerJsonChanged,
         OnChange LivereloadInitiated]"
  by (simp add: server_def)

lemma server_started:
  "set (started (on_change nd opts (server nd opts) p))
     \<subseteq> {name opts ''html'', name opts ''scripts'', name opts ''images''}"
proof -
  have "set (started (fst (fire nd opts a p)))
          \<subseteq> {name opts ''html'', name opts ''scripts'', name opts ''images''}"
    if "a \<in> set (map snd (bindings (server nd opts)))" for a
    using that started_fire[of nd opts a p] unfolding server_actions by auto
  then show ?thesis
    unfolding on_change_def started_concat by force
qed

lemma is_digit_s [simp]: "\<not> is_digit CHR ''s''"
  by (simp add: is_digit_def)

lemma prop_key_styles: "prop_key (name opts ''styles'') = Name (name opts ''styles'')"
  by (simp add: prop_key_def name_def)

lemma get_prop_js_array_Name [simp]: "get_prop (js_array vs) (Name n) = JUndefined"
proof -
  have "Name n \<notin> fst ` set (map (\<lambda>(i, v). (Idx i, v)) (enumerate k vs))" for k
    by auto
  then have "map_of (map (\<lambda>(i, v). (Idx i, v)) (enumerate 0 vs)) (Name n) = None"
    by (simp add: map_of_eq_None_iff)
  then show ?thesis by (simp add: js_array_def)
qed

lemma styles_watch_glob_undefined: "styles_watch_glob nd opts = GlobUndefined"
  by (simp add: styles_watch_glob_def prop_key_styles js_strings_def glob_of_js_def)

text \<open>
  \<^bold>\<open>C4\<close> (what the code does). The specification has a change of a file under the
  styles sources start the styles task once while the server watches. In the code the
  flattened array of the styles patterns is indexed with the task name, which reads
  \<^verbatim>\<open>undefined\<close>, and that is the only argument of the third \<^verbatim>\<open>gulp.watch\<close>: the
  binding has no pattern and no task. For every configuration and every changed path,
  whatever the watcher matches, the styles task is not among the tasks started.
\<close>

theorem styles_watch_starts_nothing:
  "name opts ''styles'' \<notin> set (started (on_change nd opts (server nd opts) p)) \<and>
   (styles_watch_glob nd opts, NoCallback) \<in> set (bindings (server nd opts)) \<and>
   styles_watch_glob nd opts = GlobUndefined"
proof -
  have "name opts ''styles'' \<notin> set (started (on_change nd opts (server nd opts) p))"
    using server_started[of nd opts p] by auto
  moreover have "(styles_watch_glob nd opts, NoCallback) \<in> set (bindings (server nd opts))"
    by (simp add: server_def)
  ultimately show ?thesis
    by (simp add: styles_watch_glob_undefined)
qed

lemma styles_change_at_defaults:
  "on_change example_node (default_options example_node)
     (server example_node (default_options example_node)) ''/project/src/client/styles/styles.scss'' = []"
  by (simp add: on_change_def server_def styles_watch_glob_undefined example_node_def
        files_src_html_def files_src_scripts_def files_src_templates_def files_lib_scripts_def
        files_src_images_def buildSrc_def buildLib_def buildFiles_def default_options_def
        js_of_string_def suffix_def)

text \<open>
  \<^bold>\<open>C5\<close> (as amended). The server binds \<^verbatim>\<open>package.json\<close> to the reload callback.
  When the binding fires for a path that contains \<^verbatim>\<open>package.json\<close>, the callback
  logs, runs \<^verbatim>\<open>npm install\<close>, then \<^verbatim>\<open>npm prune\<close>, then exits the process with
  code 0, and starts no task; when \<^verbatim>\<open>npm install\<close> or \<^verbatim>\<open>npm prune\<close> exits
  non-zero, the call throws and the rest of the chain, the exit with code 0 included,
  does not run.
\<close>

theorem package_json_changed_chain:
  assumes "sublist ''package.json'' p"
  shows "(GlobStr ''package.json'', Reloadable ''package.json'' PackageJsonChanged)
           \<in> set (bindings (server nd opts)) \<and>
         fire nd opts (Reloadable ''package.json'' PackageJsonChanged) p =
           (if exec_status nd ''npm install'' \<noteq> 0 then
              ([Log [LogStr ''package.json changed, installing packages...''],
                ExecSync ''npm install''], Thrown (ExecSync ''npm install''))
            else if exec_status nd ''npm prune'' \<noteq> 0 then
              ([Log [LogStr ''package.json changed, installing packages...''],
                ExecSync ''npm install'', ExecSync ''npm prune''], Thrown (ExecSync ''npm prune''))
            else
              ([Log [LogStr ''package.json changed, installing packages...''],
                ExecSync ''npm install'', ExecSync ''npm prune'', ProcessExit (Some 0)],
               Exited (Some 0))) \<and>
         started (fst (fire nd opts (Reloadable ''package.json'' PackageJsonChanged) p)) = []"
  using assms by (simp add: server_def)

theorem package_json_changed_chain_witness:
  "sublist ''package.json'' ''/project/package.json'' \<and>
   fire example_node (default_options example_node)
        (Reloadable ''package.json'' PackageJsonChanged) ''/project/package.json'' =
     ([Log [LogStr ''package.json changed, installing packages...''],
       ExecSync ''npm install'', ExecSync ''npm prune'', ProcessExit (Some 0)],
      Exited (Some 0))"
proof -
  have s: "sublist ''package.json'' ''/project/package.json''"
    by (simp add: sublist_code)
  have e: "exec_status example_node = (\<lambda>cmd. 0)"
    by (simp add: example_node_def)
  show ?thesis
    using package_json_changed_chain[OF s, of example_node "default_options example_node"] s
    by (simp add: e)
qed

theorem package_json_prune_failure_counterexample:
  "exec_status (example_node\<lparr>exec_status := (\<lambda>c. if c = ''npm prune'' then 1 else 0)\<rparr>)
     ''npm install'' = 0 \<and>
   fire (example_node\<lparr>exec_status := (\<lambda>c. if c = ''npm prune'' then 1 else 0)\<rparr>)
        (default_options example_node)
        (Reloadable ''package.json'' PackageJsonChanged) ''/project/package.json'' =
     ([Log [LogStr ''package.json changed, installing packages...''],
       ExecSync ''npm install'', ExecSync ''npm prune''],
      Thrown (ExecSync ''npm prune''))"
  by (simp add: sublist_code)

text \<open>
  \<^bold>\<open>C9\<close> (as amended). In \<^verbatim>\<open>gulp-begin.js\<close>, the body of the \<^verbatim>\<open>html\<close> task
  reads the markup sources, minifies them with \<^verbatim>\<open>collapseWhitespace\<close> and writes
  the result to the client destination directory, in this order and to the end; it
  deletes nothing. (The body of the earlier gulpfile is \<open>html_gulpfile\<close>: it first calls
  \<^verbatim>\<open>del.sync(files.src.html)\<close>, which names the source patterns.)
\<close>

theorem html_body_steps:
  "exec nd (html nd opts) =
     ([GulpSrc (files_src_html nd opts), Pipe (Htmlmin True), GulpDest (client_dest opts)], Completed) \<and>
   deleted (fst (exec nd (html nd opts))) = [] \<and>
   body_stmts nd opts HtmlFn = Some (html nd opts)"
  by (simp add: html_def)

theorem html_no_delete_counterexample:
  "deleted (fst (exec example_node (html example_node (default_options example_node)))) = [] \<and>
   deleted (fst (exec example_node (html_gulpfile example_node (default_options example_node))))
     = [''src/client/*.html''] \<and>
   client_dest (default_options example_node) = ''public''"
  by (simp add: html_def html_gulpfile_def files_src_html_def buildSrc_def buildFiles_def
        default_options_def example_node_def js_of_string_def)







text \<open>
  \<^bold>\<open>C6\<close> (as amended). For every prefix option, when \<^verbatim>\<open>warnExclusions\<close> is truthy
  or no default task is excluded: every name that a default task is registered with as
  an upstream dependency, and every task name that a watch binding of the server starts,
  is a registered name (a real task or the stub of an excluded one).
\<close>

theorem dependencies_registered:
  assumes "warnExclusions opts \<or> (\<forall>n \<in> fst ` set (defaultTasks opts). \<not> isExcluded opts n)"
  shows "(\<forall>n \<in> fst ` set (defaultTasks opts). \<forall>r. register opts g n = Some r \<longrightarrow>
            (\<forall>d \<in> set (dep r). register opts g d \<noteq> None)) \<and>
         (\<forall>t \<in> set (started (on_change nd opts (server nd opts) p)). register opts g t \<noteq> None)"
proof (intro conjI ballI allI impI)
  fix n r d
  assume n: "n \<in> fst ` set (defaultTasks opts)" and r: "register opts g n = Some r"
    and d: "d \<in> set (dep r)"
  from n obtain args where a: "(n, args) \<in> set (defaultTasks opts)" by auto
  have "d \<in> fst ` set (defaultTasks opts)"
  proof (cases "isExcluded opts n")
    case True
    with assms n have "warnExclusions opts" by auto
    with True r d show ?thesis by (auto simp: register_at[OF a])
  next
    case False
    with r have "gulp_task n (first_arg args) g n = Some r" by (simp add: register_at[OF a])
    from deps_are_default_tasks[OF a this] d show ?thesis by auto
  qed
  then show "register opts g d \<noteq> None" by (rule register_defined[OF assms])
next
  fix t
  assume "t \<in> set (started (on_change nd opts (server nd opts) p))"
  with server_started[of nd opts p] have "t \<in> fst ` set (defaultTasks opts)"
    by (auto simp: defaultTasks_def)
  then show "register opts g t \<noteq> None" by (rule register_defined[OF assms])
qed

theorem dependencies_registered_witness:
  "warnExclusions ((default_options example_node)\<lparr>prefix := Some ''p'', exclude := Some [''p_jshint''], warnExclusions := True\<rparr>) \<and>
   register ((default_options example_node)\<lparr>prefix := Some ''p'', exclude := Some [''p_jshint''], warnExclusions := True\<rparr>)
     Map.empty ''p_scripts'' = Some \<lparr>dep = [''p_jshint''], fn = NoopFn\<rparr> \<and>
   register ((default_options example_node)\<lparr>prefix := Some ''p'', exclude := Some [''p_jshint''], warnExclusions := True\<rparr>)
     Map.empty ''p_jshint'' \<noteq> None"
proof -
  let ?o = "(default_options example_node)\<lparr>prefix := Some ''p'', exclude := Some [''p_jshint''], warnExclusions := True\<rparr>"
  have w: "warnExclusions ?o" by simp
  have nm: "name ?o = (\<lambda>t. ''p_'' @ t)"
    by (simp add: name_def fun_eq_iff)
  have s: "(''p_scripts'', [Deps [''p_jshint''], Body ScriptsFn]) \<in> set (defaultTasks ?o)"
    by (simp add: defaultTasks_def nm)
  have e: "\<not> isExcluded ?o ''p_scripts''"
    by (simp add: isExcluded_def excludedTasks_def nm)
  have r: "register ?o Map.empty ''p_scripts'' = Some \<lparr>dep = [''p_jshint''], fn = NoopFn\<rparr>"
    by (simp add: register_at[OF s] e first_arg_def)
  have "\<forall>n \<in> fst ` set (defaultTasks ?o). \<forall>r. register ?o Map.empty n = Some r \<longrightarrow>
            (\<forall>d \<in> set (dep r). register ?o Map.empty d \<noteq> None)"
    using dependencies_registered[of ?o Map.empty] w by blast
  moreover have "''p_scripts'' \<in> fst ` set (defaultTasks ?o)"
    using s by (rule rev_image_eqI) simp
  ultimately have "\<forall>d \<in> set (dep \<lparr>dep = [''p_jshint''], fn = NoopFn\<rparr>). register ?o Map.empty d \<noteq> None"
    using r by blast
  then show ?thesis
    using r w by simp
qed

theorem dangling_references_counterexample:
  "map snd (bindings (autotest ((default_options example_node)\<lparr>prefix := Some ''p''\<rparr>)))
     = [StartTasks [''test'']] \<and>
   register ((default_options example_node)\<lparr>prefix := Some ''p''\<rparr>) Map.empty ''test'' = None \<and>
   register ((default_options example_node)\<lparr>prefix := Some ''p''\<rparr>) Map.empty ''p_test''
     = Some \<lparr>dep = [''p_jshint''], fn = NoopFn\<rparr> \<and>
   register ((default_options example_node)\<lparr>exclude := Some [''jshint'']\<rparr>) Map.empty ''scripts''
     = Some \<lparr>dep = [''jshint''], fn = NoopFn\<rparr> \<and>
   register ((default_options example_node)\<lparr>exclude := Some [''jshint'']\<rparr>) Map.empty ''jshint'' = None"
proof -
  let ?p = "(default_options example_node)\<lparr>prefix := Some ''p''\<rparr>"
  let ?x = "(default_options example_node)\<lparr>exclude := Some [''jshint'']\<rparr>"
  have np: "name ?p = (\<lambda>t. ''p_'' @ t)" and nx: "name ?x = (\<lambda>t. t)"
    by (simp_all add: name_def fun_eq_iff default_options_def)
  have ep: "excludedTasks ?p = []" and ex: "excludedTasks ?x = [''jshint'']"
    by (simp_all add: excludedTasks_def default_options_def)
  have wx: "\<not> warnExclusions ?x"
    by (simp add: default_options_def)
  have t: "(''p_test'', [Deps [''p_jshint''], Body TestFn]) \<in> set (defaultTasks ?p)"
    by (simp add: defaultTasks_def np)
  have s: "(''scripts'', [Deps [''jshint''], Body ScriptsFn]) \<in> set (defaultTasks ?x)"
   and j: "(''jshint'', [Body JshintFn]) \<in> set (defaultTasks ?x)"
    by (simp_all add: defaultTasks_def nx)
  have "''test'' \<notin> fst ` set (defaultTasks ?p)"
    by (simp add: defaultTasks_def np)
  then have "register ?p Map.empty ''test'' = None"
    by (simp add: register_other)
  moreover have "register ?p Map.empty ''p_test'' = Some \<lparr>dep = [''p_jshint''], fn = NoopFn\<rparr>"
    by (simp add: register_at[OF t] isExcluded_def ep first_arg_def)
  moreover have "register ?x Map.empty ''scripts'' = Some \<lparr>dep = [''jshint''], fn = NoopFn\<rparr>"
    by (simp add: register_at[OF s] isExcluded_def ex nx first_arg_def)
  moreover have "register ?x Map.empty ''jshint'' = None"
    by (simp add: register_at[OF j] isExcluded_def ex nx wx)
  ultimately show ?thesis
    by (simp add: autotest_def)
qed

section \<open>Properties of configuration resolution\<close>

subsection \<open>Merging the entries of a source into an object\<close>

lemma isObject_set_prop [simp]: "isObject (set_prop ob x v) = isObject ob"
  by (cases ob) simp_all

lemma isObject_merge_entries [simp]: "isObject (merge_entries ob ps) = isObject ob"
proof (induction ps arbitrary: ob)
  case Nil
  show ?case by simp
next
  case (Cons a ps)
  obtain x sv where a: "a = (x, sv)" by (cases a)
  show ?case
    unfolding a merge_entries.simps Cons.IH by simp
qed

lemma get_set_prop:
  "isObject ob \<Longrightarrow> get_prop (set_prop ob x v) y = (if y = x then v else get_prop ob y)"
  by (cases ob) (simp_all add: update_conv')

lemma has_own_set_prop:
  "isObject ob \<Longrightarrow> has_own (set_prop ob x v) y = (y = x \<or> has_own ob y)"
  by (cases ob) (auto simp: has_own_def dom_update)

lemma set_prop_same: "has_own ob x \<Longrightarrow> set_prop ob x (get_prop ob x) = ob"
proof (cases ob)
  case (JObject k ps)
  assume "has_own ob x"
  with JObject have "map_of ps x \<noteq> None"
    by (simp add: has_own_def map_of_eq_None_iff)
  then obtain v where "map_of ps x = Some v" by blast
  with JObject show ?thesis by (simp add: update_triv)
qed (simp_all add: has_own_def)

lemma get_merge_entries:
  "distinct (map fst ps) \<Longrightarrow> isObject ob \<Longrightarrow>
   get_prop (merge_entries ob ps) y =
     (case map_of ps y of None \<Rightarrow> get_prop ob y | Some sv \<Rightarrow> merge_value (get_prop ob y) sv)"
proof (induction ps arbitrary: ob)
  case Nil
  then show ?case by simp
next
  case (Cons a ps)
  obtain x sv where a: "a = (x, sv)" by (cases a)
  from Cons.prems a have d: "distinct (map fst ps)" and nx: "map_of ps x = None"
    by (auto simp: map_of_eq_None_iff)
  show ?case
    using Cons.IH[OF d, of "set_prop ob x (merge_value (get_prop ob x) sv)"] Cons.prems(2) a nx
    by (auto simp: get_set_prop split: option.splits)
qed

lemma has_own_merge_entries:
  "isObject ob \<Longrightarrow> has_own (merge_entries ob ps) y = (y \<in> fst ` set ps \<or> has_own ob y)"
proof (induction ps arbitrary: ob)
  case Nil
  then show ?case by simp
next
  case (Cons a ps)
  obtain x sv where a: "a = (x, sv)" by (cases a)
  show ?case
    using Cons.IH[of "set_prop ob x (merge_value (get_prop ob x) sv)"] Cons.prems a
    by (simp add: has_own_set_prop) blast
qed

lemma merge_entries_noop:
  "\<forall>p \<in> set ps. has_own ob (fst p) \<and> merge_value (get_prop ob (fst p)) (snd p) = get_prop ob (fst p)
   \<Longrightarrow> merge_entries ob ps = ob"
  by (induction ps) (auto simp: set_prop_same)


lemma merge_entries_idem:
  assumes "isObject ob" and "distinct (map fst ps)"
      and "\<And>x sv ov. (x, sv) \<in> set ps \<Longrightarrow> merge_value (merge_value ov sv) sv = merge_value ov sv"
  shows "merge_entries (merge_entries ob ps) ps = merge_entries ob ps"
proof (rule merge_entries_noop, rule ballI)
  fix p assume p: "p \<in> set ps"
  obtain x sv where xs: "p = (x, sv)" by (cases p)
  with p assms(2) have m: "map_of ps x = Some sv" by simp
  have "has_own (merge_entries ob ps) x"
    using p xs assms(1) by (auto simp: has_own_merge_entries intro: rev_image_eqI)
  moreover have "get_prop (merge_entries ob ps) x = merge_value (get_prop ob x) sv"
    by (simp add: get_merge_entries[OF assms(2) assms(1)] m)
  ultimately show "has_own (merge_entries ob ps) (fst p) \<and>
      merge_value (get_prop (merge_entries ob ps) (fst p)) (snd p) = get_prop (merge_entries ob ps) (fst p)"
    using assms(3)[of x sv "get_prop ob x"] p xs by simp
qed

lemma merge_value_idem:
  "distinct_keys sv \<Longrightarrow> merge_value (merge_value ov sv) sv = merge_value ov sv"
proof (induction sv arbitrary: ov)
  case (JObject k ps)
  have d: "distinct (map fst ps)" using JObject.prems by simp
  have ih: "merge_value (merge_value ov' sv) sv = merge_value ov' sv" if "(x, sv) \<in> set ps" for x sv ov'
  proof -
    from that JObject.prems have "distinct_keys sv" by (auto simp: list_all_iff)
    with that show ?thesis by (intro JObject.IH[of "(x, sv)" sv]) auto
  qed
  show ?case
  proof (cases "isObject ov")
    case True
    then show ?thesis using merge_entries_idem[OF True d ih] by simp
  next
    case False
    show ?thesis
    proof (cases "ov = JUndefined")
      case True
      have "isObject (JObject k [])" by simp
      from merge_entries_idem[OF this d ih] True show ?thesis by simp
    next
      case False
      with \<open>\<not> isObject ov\<close> show ?thesis by simp
    qed
  qed
qed simp_all

lemma update_fresh: "x \<notin> fst ` set qs \<Longrightarrow> AList.update x v qs = qs @ [(x, v)]"
  by (induction qs) auto

lemma merge_entries_fresh:
  "distinct (map fst (qs @ ps)) \<Longrightarrow> (\<And>x sv. (x, sv) \<in> set ps \<Longrightarrow> merge_value JUndefined sv = sv) \<Longrightarrow>
   merge_entries (JObject k qs) ps = JObject k (qs @ ps)"
proof (induction ps arbitrary: qs)
  case Nil
  then show ?case by simp
next
  case (Cons a ps)
  obtain x sv where a: "a = (x, sv)" by (cases a)
  from Cons.prems(1) a have fresh: "x \<notin> fst ` set qs" and none: "map_of qs x = None"
    by (auto simp: map_of_eq_None_iff)
  have sv: "merge_value JUndefined sv = sv" using Cons.prems(2)[of x sv] a by simp
  have "distinct (map fst ((qs @ [(x, sv)]) @ ps))" using Cons.prems(1) a by auto
  from Cons.IH[OF this] Cons.prems(2) have "merge_entries (JObject k (qs @ [(x, sv)])) ps = JObject k ((qs @ [(x, sv)]) @ ps)"
    by auto
  then show ?case
    using a none sv by (simp add: update_fresh[OF fresh])
qed

lemma merge_undefined: "distinct_keys sv \<Longrightarrow> merge_value JUndefined sv = sv"
proof (induction sv)
  case (JObject k ps)
  have "merge_value JUndefined sv = sv" if "(x, sv) \<in> set ps" for x sv
  proof -
    from that JObject.prems have "distinct_keys sv" by (auto simp: list_all_iff)
    with that show ?thesis by (intro JObject.IH[of "(x, sv)" sv]) auto
  qed
  with merge_entries_fresh[of "[]" ps k] JObject.prems show ?case by simp
qed simp_all

subsection \<open>Paths, and arrays merged by index\<close>

lemma get_path_undefined [simp]: "get_path JUndefined p = JUndefined"
  by (induction p) simp_all

lemma get_prop_not_object: "\<not> isObject v \<Longrightarrow> get_prop v x = JUndefined"
  by (cases v) simp_all

lemma distinct_keys_get_prop: "distinct_keys d \<Longrightarrow> distinct_keys (get_prop d x)"
proof (cases d)
  case (JObject k ps)
  assume "distinct_keys d"
  with JObject have "\<forall>p \<in> set ps. distinct_keys (snd p)" by (simp add: list_all_iff)
  then have "distinct_keys v" if "map_of ps x = Some v" for v
    using map_of_SomeD[OF that] by fastforce
  with JObject show ?thesis by (simp split: option.splits)
qed simp_all

lemma get_prop_merge_value:
  assumes "distinct_keys d" and "has_own d x" and "isObject ov"
  shows "get_prop (merge_value ov d) x = merge_value (get_prop ov x) (get_prop d x)"
proof (cases d)
  case (JObject k ps)
  with assms(1) have dist: "distinct (map fst ps)" by simp
  from assms(2) JObject have "map_of ps x \<noteq> None"
    by (simp add: has_own_def map_of_eq_None_iff)
  then obtain sv where m: "map_of ps x = Some sv" by blast
  then have g: "get_prop d x = sv" using JObject by simp
  have "get_prop (merge_entries ov ps) x = merge_value (get_prop ov x) sv"
    by (simp add: get_merge_entries[OF dist assms(3)] m)
  then show ?thesis
    unfolding g using JObject assms(3) by simp
qed (use assms(2) in \<open>simp_all add: has_own_def\<close>)










subsection \<open>The defaults\<close>

lemma defaults_literal_entries:
  "\<exists>ps. defaults_literal nd g = JObject Plain ps \<and> distinct (map fst ps) \<and>
        Name ''server.cwd'' \<notin> fst ` set ps \<and>
        map_of ps (Name ''server'') = Some (JObject Plain
          [(Name ''cwd'', JStr ''src/server''), (Name ''main'', JStr ''index.js''),
           (Name ''watch'', js_strings [g, ''*.js''])])"
  by (simp add: defaults_literal_def js_object_def)

lemma distinct_keys_js_of_string [simp]: "distinct_keys (js_of_string s)"
  by (cases s) (simp_all add: js_of_string_def)

lemma distinct_keys_defaults_literal: "distinct_keys (defaults_literal nd g)"
  by (simp add: defaults_literal_def js_object_def js_strings_def js_array_def)

lemma isObject_merge_value: "isObject ov \<Longrightarrow> isObject d \<Longrightarrow> isObject (merge_value ov d)"
  by (cases d) simp_all

lemma isObject_defaults_literal [simp]: "isObject (defaults_literal nd g)"
  by (simp add: defaults_literal_def js_object_def)

lemma isObject_to_object [simp]: "isObject (to_object v)"
  by (cases v) simp_all

lemma to_object_object [simp]: "isObject v \<Longrightarrow> to_object v = v"
  by (cases v) simp_all

lemma Name_not_index:
  "Name n \<notin> fst ` set (map (\<lambda>(i, c). (Idx i, f c)) (enumerate k cs))"
  by auto

lemma get_prop_to_object [simp]: "get_prop (to_object v) (Name n) = get_prop v (Name n)"
proof (cases v)
  case (JStr s)
  have "map_of (map (\<lambda>(i, c). (Idx i, JStr [c])) (enumerate 0 s)) (Name n) = None"
    unfolding map_of_eq_None_iff by (rule Name_not_index)
  with JStr show ?thesis by simp
qed simp_all

lemma has_own_to_object [simp]: "has_own (to_object v) (Name n) = has_own v (Name n)"
proof (cases v)
  case (JStr s)
  show ?thesis
    unfolding JStr using Name_not_index[of n "\<lambda>c. JStr [c]" 0 s] by (simp add: has_own_def)
qed (simp_all add: has_own_def)

lemma defaultsDeep_merge_value:
  "isObject d \<Longrightarrow> defaultsDeep u d = merge_value (to_object u) d"
  by (cases d) simp_all

lemma has_own_merge_value:
  "isObject ov \<Longrightarrow> isObject d \<Longrightarrow> has_own (merge_value ov d) x = (has_own d x \<or> has_own ov x)"
  by (cases d) (simp_all add: has_own_merge_entries, simp add: has_own_def)

lemma get_prop_merge_value_other:
  assumes "distinct_keys d" and "\<not> has_own d x" and "isObject ov"
  shows "get_prop (merge_value ov d) x = get_prop ov x"
proof (cases d)
  case (JObject k ps)
  with assms(1) have dist: "distinct (map fst ps)" by simp
  from assms(2) JObject have "map_of ps x = None"
    by (simp add: has_own_def map_of_eq_None_iff)
  then show ?thesis
    using JObject assms(3) by (simp add: get_merge_entries[OF dist assms(3)])
qed (cases ov; simp)+

lemma cwd_after_merge:
  assumes "distinct_keys ds" and "has_own ds (Name ''cwd'')"
      and "get_prop ds (Name ''cwd'') = JStr ''src/server''"
  shows "(let v = get_prop (merge_value s ds) (Name ''cwd'')
          in if v = JUndefined then JStr ''src/server'' else v) =
         (let v = get_prop s (Name ''cwd'') in if v = JUndefined then JStr ''src/server'' else v)"
proof (cases "isObject s")
  case True
  show ?thesis
    by (simp add: get_prop_merge_value[OF assms(1,2) True] assms(3))
next
  case False
  from assms(2) obtain k ps where ds: "ds = JObject k ps" by (cases ds) (simp_all add: has_own_def)
  show ?thesis
  proof (cases "s = JUndefined")
    case True
    then show ?thesis by (simp add: merge_undefined[OF assms(1)] assms(3))
  next
    case nu: False
    with False ds have "merge_value s ds = s" by simp
    then show ?thesis by simp
  qed
qed

lemma get_server_cwd_merge:
  "get_server_cwd (merge_value (to_object u) (defaults_literal nd g)) = get_server_cwd u"
proof -
  define d where "d = defaults_literal nd g"
  define r where "r = merge_value (to_object u) d"
  define ds where "ds = JObject Plain
          [(Name ''cwd'', JStr ''src/server''), (Name ''main'', JStr ''index.js''),
           (Name ''watch'', js_strings [g, ''*.js''])]"
  obtain ps where ps: "d = JObject Plain ps" "distinct (map fst ps)"
      "Name ''server.cwd'' \<notin> fst ` set ps" "map_of ps (Name ''server'') = Some ds"
    using defaults_literal_entries[of nd g] unfolding d_def ds_def by blast
  have dk: "distinct_keys d" unfolding d_def by (rule distinct_keys_defaults_literal)
  have ob: "isObject d" unfolding d_def by simp
  have no: "\<not> has_own d (Name ''server.cwd'')" using ps(1,3) by (simp add: has_own_def)
  have srv: "has_own d (Name ''server'')" "get_prop d (Name ''server'') = ds"
    using ps(1,4) by (auto simp: has_own_def dest: map_of_SomeD intro: rev_image_eqI)
  have h: "has_own r (Name ''server.cwd'') = has_own u (Name ''server.cwd'')"
    unfolding r_def using no ob by (simp add: has_own_merge_value)
  have g1: "get_prop r (Name ''server.cwd'') = get_prop u (Name ''server.cwd'')"
    unfolding r_def using get_prop_merge_value_other[OF dk no, of "to_object u"] by simp
  have g2: "get_prop r (Name ''server'') = merge_value (get_prop u (Name ''server'')) ds"
    unfolding r_def using get_prop_merge_value[OF dk srv(1), of "to_object u"] srv(2) by simp
  have dks: "distinct_keys ds"
    using distinct_keys_get_prop[OF dk, of "Name ''server''"] srv(2) by simp
  have c: "(let v = get_prop (merge_value (get_prop u (Name ''server'')) ds) (Name ''cwd'')
          in if v = JUndefined then JStr ''src/server'' else v) =
         (let v = get_prop (get_prop u (Name ''server'')) (Name ''cwd'')
          in if v = JUndefined then JStr ''src/server'' else v)"
    by (rule cwd_after_merge[OF dks]) (simp_all add: ds_def has_own_def)
  have "get_server_cwd r = get_server_cwd u"
  proof (cases "has_own u (Name ''server.cwd'')")
    case True
    then show ?thesis unfolding get_server_cwd_def has_own_to_object h g1 by simp
  next
    case False
    then show ?thesis
      unfolding get_server_cwd_def has_own_to_object h g1 g2 Let_def using c[unfolded Let_def]
      by (simp split: if_splits)
  qed
  then show ?thesis
    unfolding r_def d_def .
qed

lemma resolve_cases:
  "resolve nd u = Inr r \<longleftrightarrow>
     (\<exists>c. get_server_cwd u = JStr c \<and>
          r = merge_value (to_object u) (defaults_literal nd (path_join nd [c, ''**/*.js''])))"
  by (auto simp: resolve_def defaults_def defaultsDeep_merge_value split: jsval.splits)





lemma get_server_cwd_example [simp]:
  "get_server_cwd (js_object [(''client'', js_object [(''scripts'', js_object [(''src'', js_strings [''a.js''])])])])
     = JStr ''src/server''"
  "get_server_cwd (js_object [(''test'', js_object [(''main'', JStr ''test/test.js'')]),
      (''exclude'', js_strings [''server'']), (''warnExclusions'', JBool True)]) = JStr ''src/server''"
  "get_server_cwd (js_object [(''server'', js_object [(''cwd'', JNum 5)])]) = JNum 5"
  "get_server_cwd (js_object []) = JStr ''src/server''"
  by (simp_all add: get_server_cwd_def has_own_def js_object_def)


lemma unset_wrapper:
  "\<not> isObject u \<Longrightarrow> unset (to_object u) (Name n # p)"
proof -
  assume "\<not> isObject u"
  then have "get_prop u (Name n) = JUndefined" by (rule get_prop_not_object)
  then have "get_prop (to_object u) (Name n) = JUndefined" by simp
  then show ?thesis by (cases p) simp_all
qed

lemma path_join_example [simp]: "path_join example_node = join_slash"
  by (simp add: example_node_def)

subsection \<open>Resolution on the store\<close>
























lemma matches_nonempty:
  "matches h (HRef a) (JObject k ps) \<Longrightarrow> ps \<noteq> [] \<Longrightarrow> snd (h ! a) \<noteq> []"
  by (cases ps) (auto split: list.splits)

subsection \<open>The properties\<close>







text \<open>
  \<^bold>\<open>C8.\<close> Resolution is idempotent: when resolving \<open>x\<close> returns a configuration,
  resolving that configuration returns the same configuration. Resolving \<open>x\<close> does
  return whenever the \<^verbatim>\<open>server.cwd\<close> it reads is absent or a string.
\<close>

theorem resolve_idempotent:
  "(\<forall>r. resolve nd x = Inr r \<longrightarrow> resolve nd r = Inr r) \<and>
   ((\<exists>c. get_server_cwd x = JStr c) \<longrightarrow> (\<exists>r. resolve nd x = Inr r))"
proof (intro conjI allI impI)
  fix r
  assume a: "resolve nd x = Inr r"
  from a obtain c where c: "get_server_cwd x = JStr c"
    and r: "r = merge_value (to_object x) (defaults_literal nd (path_join nd [c, ''**/*.js'']))"
    unfolding resolve_cases by blast
  let ?d = "defaults_literal nd (path_join nd [c, ''**/*.js''])"
  have "get_server_cwd r = JStr c"
    unfolding r get_server_cwd_merge by (rule c)
  moreover have "isObject r" unfolding r by (simp add: isObject_merge_value)
  then have "to_object r = r" by simp
  moreover have "merge_value r ?d = r"
    unfolding r by (rule merge_value_idem[OF distinct_keys_defaults_literal])
  ultimately show "resolve nd r = Inr r"
    unfolding resolve_cases by simp
next
  assume "\<exists>c. get_server_cwd x = JStr c"
  then show "\<exists>r. resolve nd x = Inr r"
    unfolding resolve_cases by blast
qed

theorem resolve_idempotent_witness:
  "\<exists>r. resolve example_node
          (js_object [(''test'', js_object [(''main'', JStr ''test/test.js'')]),
                      (''exclude'', js_strings [''server'']), (''warnExclusions'', JBool True)]) = Inr r \<and>
       resolve example_node r = Inr r \<and>
       get_path r [Name ''test'', Name ''main''] = JStr ''test/test.js'' \<and>
       get_path r [Name ''client'', Name ''dest''] = JStr ''public''"
proof -
  let ?u = "js_object [(''test'', js_object [(''main'', JStr ''test/test.js'')]),
                      (''exclude'', js_strings [''server'']), (''warnExclusions'', JBool True)]"
  let ?r = "merge_value (to_object ?u) (defaults_literal example_node (path_join example_node [''src/server'', ''**/*.js'']))"
  have r: "resolve example_node ?u = Inr ?r"
    unfolding resolve_cases by simp
  have "resolve example_node ?r = Inr ?r"
    using resolve_idempotent[of example_node ?u] r by blast
  moreover have "get_path ?r [Name ''test'', Name ''main''] = JStr ''test/test.js''"
     "get_path ?r [Name ''client'', Name ''dest''] = JStr ''public''"
    by (simp_all add: defaults_literal_def js_object_def js_strings_def js_array_def)
  ultimately show ?thesis using r by blast
qed

end
